theory Spec2Isabelle
  imports Complex_Main
begin

section \<open>Reflow of OCR transcripts with margin line numbers\<close>

text \<open>
  This theory embeds the reflow engine of the repository: the script
  \<^verbatim>\<open>Customers/Eve Legal/reflow_markdown_with_line_numbers.py\<close> (the plain variant) and
  the notebook cell that \<^verbatim>\<open>update_notebook.py\<close> holds in
  \<^verbatim>\<open>create_enhanced_reflow_cell\<close> (the offset-tracking variant).

  Conventions of the embedding.
  \<^item> A Python \<^verbatim>\<open>str\<close> is a \<open>string\<close>; every \<open>char\<close> stands for one code point
    below 256, so \<open>length\<close> is Python's \<^verbatim>\<open>len\<close> on such text. The character classes
    (\<^verbatim>\<open>isspace\<close>, \<^verbatim>\<open>isdigit\<close>, \<^verbatim>\<open>isalnum\<close>) are those of Python on these code points.
  \<^item> A Python \<^verbatim>\<open>float\<close> coordinate is a rational number: the value its decimal
    spelling denotes. Rounding of binary floating point is not modelled.
  \<^item> A raised \<^verbatim>\<open>ValueError\<close> is the left summand of a sum type.
  \<^item> An absent dictionary key is represented by the default that every
    \<^verbatim>\<open>.get\<close> of the source supplies for it (\<^verbatim>\<open>''\<close> for a text, \<^verbatim>\<open>[]\<close> for a list);
    \<^verbatim>\<open>pageNumber\<close>, whose default differs between call sites, is an \<open>option\<close>.
  \<^item> Warnings printed to standard output are not modelled.
  \<^item> The text of the offset-tracking cell is read with the escapes of the sibling
    cells of \<^verbatim>\<open>update_notebook.py\<close>: a doubled backslash before \<^verbatim>\<open>n\<close> is the
    newline character, and its pattern for source descriptors is the pattern of the
    plain variant. The \<^verbatim>\<open>r\<close> prefix of the literal that holds this one cell is not
    modelled: under it the doubled backslashes would reach the notebook unchanged, the
    pattern would ask for a backslash after \<^verbatim>\<open>D\<close>, and no descriptor of the documented
    form would be extracted.
\<close>

subsection \<open>Errors\<close>

text \<open>
  \<open>ValueError msg\<close> is a \<^verbatim>\<open>ValueError\<close> raised by the repository's code with its
  message; \<open>ValueError_builtin\<close> is the \<^verbatim>\<open>ValueError\<close> that \<^verbatim>\<open>int\<close> or
  \<^verbatim>\<open>float\<close> raises on text it cannot convert (the interpreter's message is not
  modelled). Both are caught by \<^verbatim>\<open>except ValueError\<close>.
\<close>

datatype error = ValueError string | ValueError_builtin

subsection \<open>Python text primitives\<close>

definition is_ascii_digit :: "char \<Rightarrow> bool" where
  "is_ascii_digit c = (c \<in> set ''0123456789'')"

text \<open>\<^verbatim>\<open>str.isspace\<close> below code point 256: TAB to CR, FS to US, space, NEL, NBSP.\<close>

definition py_isspace :: "char \<Rightarrow> bool" where
  "py_isspace c =
     (let n = (of_char c :: nat)
      in (9 \<le> n \<and> n \<le> 13) \<or> (28 \<le> n \<and> n \<le> 32) \<or> n = 133 \<or> n = 160)"

text \<open>
  \<^verbatim>\<open>str.isdigit\<close> on one character: the decimal digits and the superscript digits
  two, three and one (code points 178, 179, 185), which have the Unicode property
  \<^verbatim>\<open>Numeric_Type=Digit\<close>.
\<close>

definition py_isdigit_char :: "char \<Rightarrow> bool" where
  "py_isdigit_char c = (is_ascii_digit c \<or> c \<in> {CHR 0xB2, CHR 0xB3, CHR 0xB9})"

text \<open>
  \<^verbatim>\<open>str.isalnum\<close> on one character: letters (ASCII, feminine and masculine ordinal
  indicators, micro sign, and the Latin-1 letters from code point 192 on but for the
  multiplication and division signs), digits as above, and the vulgar fractions
  (code points 188 to 190), which are numeric.
\<close>

definition py_isalnum_char :: "char \<Rightarrow> bool" where
  "py_isalnum_char c =
     (let n = (of_char c :: nat)
      in (65 \<le> n \<and> n \<le> 90) \<or> (97 \<le> n \<and> n \<le> 122) \<or> n = 170 \<or> n = 181 \<or> n = 186
         \<or> (192 \<le> n \<and> n \<noteq> 215 \<and> n \<noteq> 247)
         \<or> py_isdigit_char c \<or> (188 \<le> n \<and> n \<le> 190))"

definition py_isdigit :: "string \<Rightarrow> bool" where
  "py_isdigit s = (s \<noteq> [] \<and> list_all py_isdigit_char s)"

definition py_isalnum :: "string \<Rightarrow> bool" where
  "py_isalnum s = (s \<noteq> [] \<and> list_all py_isalnum_char s)"

definition strip :: "string \<Rightarrow> string" where
  "strip s = rev (dropWhile py_isspace (rev (dropWhile py_isspace s)))"

text \<open>\<^verbatim>\<open>sep.join(parts)\<close>.\<close>

fun join :: "string \<Rightarrow> string list \<Rightarrow> string" where
  "join sep [] = []"
| "join sep [p] = p"
| "join sep (p # q # ps) = p @ sep @ join sep (q # ps)"

text \<open>\<^verbatim>\<open>s.split(c)\<close> for a one-character separator: empty pieces are kept.\<close>

fun split_on :: "char \<Rightarrow> string \<Rightarrow> string list" where
  "split_on c [] = [[]]"
| "split_on c (x # xs) =
     (if x = c then [] # split_on c xs
      else (case split_on c xs of p # ps \<Rightarrow> (x # p) # ps | [] \<Rightarrow> [[x]]))"

text \<open>\<^verbatim>\<open>T[a:b]\<close> for non-negative bounds; a bound beyond the end is clamped.\<close>

definition slice :: "string \<Rightarrow> nat \<Rightarrow> nat \<Rightarrow> string" where
  "slice T a b = take (b - a) (drop a T)"

definition digit_val :: "char \<Rightarrow> nat" where
  "digit_val c = of_char c - 48"

definition decimal_value :: "string \<Rightarrow> nat" where
  "decimal_value ds = foldl (\<lambda>a c. 10 * a + digit_val c) 0 ds"

text \<open>
  \<^verbatim>\<open>int(s)\<close> on the texts that reach it in this program: texts of digit characters
  only (matched by \<^verbatim>\<open>\d+\<close>, or accepted by \<^verbatim>\<open>isdigit\<close>). It converts decimal
  digits and raises on every other digit character.
\<close>

definition py_int :: "string \<Rightarrow> int option" where
  "py_int s = (if s \<noteq> [] \<and> list_all is_ascii_digit s then Some (int (decimal_value s)) else None)"

text \<open>
  \<^verbatim>\<open>float(s)\<close> on finite decimal spellings: surrounding white space, an optional
  sign, digits with an optional point (at least one digit on one side of it) and an
  optional exponent. The spellings \<^verbatim>\<open>inf\<close> and \<^verbatim>\<open>nan\<close> and digit-group underscores
  are outside the model.
\<close>

definition float_exponent :: "string \<Rightarrow> int option" where
  "float_exponent s =
     (if s = [] then Some 0
      else if hd s \<in> set ''eE'' then
        (let t = tl s;
             neg = (t \<noteq> [] \<and> hd t = CHR ''-'');
             ds = (if t \<noteq> [] \<and> hd t \<in> set ''+-'' then tl t else t)
         in if ds \<noteq> [] \<and> list_all is_ascii_digit ds
            then Some (if neg then - int (decimal_value ds) else int (decimal_value ds))
            else None)
      else None)"

definition float_unsigned :: "string \<Rightarrow> rat option" where
  "float_unsigned s =
     (let ip = takeWhile is_ascii_digit s;
          r1 = dropWhile is_ascii_digit s;
          pt = (r1 \<noteq> [] \<and> hd r1 = CHR ''.'');
          fp = (if pt then takeWhile is_ascii_digit (tl r1) else []);
          r2 = (if pt then dropWhile is_ascii_digit (tl r1) else r1)
      in if ip = [] \<and> fp = [] then None
         else (case float_exponent r2 of
                 None \<Rightarrow> None
               | Some e \<Rightarrow>
                   Some (of_nat (decimal_value (ip @ fp)) / 10 ^ length fp
                         * (if 0 \<le> e then 10 ^ nat e else 1 / 10 ^ nat (- e)))))"

definition py_float :: "string \<Rightarrow> rat option" where
  "py_float s =
     (let t = strip s
      in if t \<noteq> [] \<and> hd t = CHR ''-'' then map_option uminus (float_unsigned (tl t))
         else if t \<noteq> [] \<and> hd t = CHR ''+'' then float_unsigned (tl t)
         else float_unsigned t)"

text \<open>\<^verbatim>\<open>str(n)\<close> for an integer, as an f-string prints it.\<close>

fun str_nat :: "nat \<Rightarrow> string" where
  "str_nat n =
     (if n < 10 then [''0123456789'' ! n]
      else str_nat (n div 10) @ [''0123456789'' ! (n mod 10)])"

declare str_nat.simps [simp del]

definition str_int :: "int \<Rightarrow> string" where
  "str_int i = (if i < 0 then CHR ''-'' # str_nat (nat (- i)) else str_nat (nat i))"

subsection \<open>Geometry parser\<close>

text \<open>
  \<^verbatim>\<open>re.match(r'D\((\d+),([^)]+)\)', source)\<close>: the text starts with \<^verbatim>\<open>D(\<close>, one or
  more decimal digits, a comma, one or more characters other than a closing
  parenthesis, and a closing parenthesis. The result holds the two groups.
\<close>

definition match_source :: "string \<Rightarrow> (string \<times> string) option" where
  "match_source source =
     (if take 2 source = ''D('' then
        (let r = drop 2 source;
             g1 = takeWhile is_ascii_digit r;
             r1 = dropWhile is_ascii_digit r
         in if g1 \<noteq> [] \<and> r1 \<noteq> [] \<and> hd r1 = CHR '','' then
              (let g2 = takeWhile (\<lambda>c. c \<noteq> CHR '')'') (tl r1);
                   r2 = dropWhile (\<lambda>c. c \<noteq> CHR '')'') (tl r1)
               in if g2 \<noteq> [] \<and> r2 \<noteq> [] then Some (g1, g2) else None)
            else None)
      else None)"

text \<open>\<^verbatim>\<open>[float(x) for x in text.split(',')]\<close>: the first failing conversion raises.\<close>

definition parse_coords :: "string \<Rightarrow> rat list option" where
  "parse_coords g = those (map py_float (split_on CHR '','' g))"

text \<open>
  The part of \<^verbatim>\<open>parse_source_coordinates\<close> after the conversions: the rectangle
  \<open>(left_x, top_y, right_x, bottom_y)\<close> of a coordinate list, \<open>None\<close> where the
  source reaches its final \<^verbatim>\<open>else\<close> branch.
\<close>

fun normalize_coords :: "rat list \<Rightarrow> (rat \<times> rat \<times> rat \<times> rat) option" where
  "normalize_coords [x1, y1, x2, y2, x3, y3, x4, y4] =
     Some (min x1 x4, min y1 y2, max x2 x3, max y3 y4)"
| "normalize_coords [left_x, top_y, width, height] =
     Some (left_x, top_y, left_x + width, top_y + height)"
| "normalize_coords coords = None"

text \<open>\<^verbatim>\<open>parse_source_coordinates\<close> of the plain variant.\<close>

definition parse_source_coordinates :: "string \<Rightarrow> error + (int \<times> rat \<times> rat \<times> rat \<times> rat)" where
  "parse_source_coordinates source =
     (case match_source source of
        None \<Rightarrow> Inl (ValueError (''Invalid source format: '' @ source))
      | Some (g1, g2) \<Rightarrow>
          (case py_int g1 of
             None \<Rightarrow> Inl ValueError_builtin
           | Some page_number \<Rightarrow>
               (case parse_coords g2 of
                  None \<Rightarrow> Inl ValueError_builtin
                | Some coords \<Rightarrow>
                    (case normalize_coords coords of
                       Some (left_x, top_y, right_x, bottom_y) \<Rightarrow>
                         Inr (page_number, left_x, top_y, right_x, bottom_y)
                     | None \<Rightarrow>
                         Inl (ValueError (''Unexpected coordinate count in source: '' @ source))))))"

text \<open>
  \<^verbatim>\<open>parse_source_coordinates\<close> of the offset-tracking variant: the same parse, a
  shorter message, and the descriptor itself as sixth component.
\<close>

definition parse_source_coordinates_offsets ::
  "string \<Rightarrow> error + (int \<times> rat \<times> rat \<times> rat \<times> rat \<times> string)" where
  "parse_source_coordinates_offsets source =
     (case match_source source of
        None \<Rightarrow> Inl (ValueError (''Invalid source format: '' @ source))
      | Some (g1, g2) \<Rightarrow>
          (case py_int g1 of
             None \<Rightarrow> Inl ValueError_builtin
           | Some page_number \<Rightarrow>
               (case parse_coords g2 of
                  None \<Rightarrow> Inl ValueError_builtin
                | Some coords \<Rightarrow>
                    (case normalize_coords coords of
                       Some (left_x, top_y, right_x, bottom_y) \<Rightarrow>
                         Inr (page_number, left_x, top_y, right_x, bottom_y, source)
                     | None \<Rightarrow>
                         Inl (ValueError (''Unexpected coordinate count: '' @ source))))))"

subsection \<open>Element classifier\<close>

text \<open>
  \<^verbatim>\<open>content.strip().isdigit() and 1 <= int(content.strip()) <= 99\<close>. The conjunction
  is short-circuit: \<^verbatim>\<open>int\<close> runs only on text that \<^verbatim>\<open>isdigit\<close> accepts, and
  its \<^verbatim>\<open>ValueError\<close> leaves the function.
\<close>

definition is_line_number :: "string \<Rightarrow> error + bool" where
  "is_line_number content =
     (if py_isdigit (strip content) then
        (case py_int (strip content) of
           None \<Rightarrow> Inl ValueError_builtin
         | Some n \<Rightarrow> Inr (1 \<le> n \<and> n \<le> 99))
      else Inr False)"

text \<open>
  \<^verbatim>\<open>is_noise_element\<close>. Of the three glyphs of the source's list only the middle dot
  (code point 183) lies below 256; the bullet and the bullet operator are single
  characters that are not alphanumeric, which the second disjunct covers as well.
\<close>

definition is_noise_element :: "string \<Rightarrow> bool" where
  "is_noise_element content0 =
     (let content = strip content0
      in content \<in> set [[CHR 0xB7]] \<or> (length content = 1 \<and> \<not> py_isalnum content))"

subsection \<open>Input document\<close>

text \<open>
  The analysis result \<^verbatim>\<open>json_data\<close>: \<open>contents\<close> is
  \<^verbatim>\<open>json_data.get('result', {}).get('contents', [])\<close>. The \<^verbatim>\<open>words\<close> of a page are
  left out: the offset-tracking variant copies them into a lookup table that it never
  reads.
\<close>

record Line =
  line_content :: string
  line_source :: string
  line_span :: "(int option \<times> int option) option"

record Page =
  pageNumber :: "int option"
  page_lines :: "Line list"

record Content =
  kind :: "string option"
  pages :: "Page list"

record Document =
  contents :: "Content list"

subsection \<open>Extracted elements\<close>

text \<open>
  The dataclass \<^verbatim>\<open>LineElement\<close>; its field \<^verbatim>\<open>is_line_number\<close> is \<open>el_is_line_number\<close>
  here, the name being taken by the classifier. The offset-tracking variant adds three
  fields.
\<close>

record LineElement =
  content :: string
  y_position :: rat
  x_position :: rat
  page_number :: int
  el_is_line_number :: bool

record LineElement_offsets = LineElement +
  original_offset :: "int option"
  original_length :: "int option"
  bbox :: "string option"

text \<open>
  One iteration of the loop of \<^verbatim>\<open>extract_lines_from_page\<close> (plain variant): \<open>None\<close>
  where the source reaches a \<^verbatim>\<open>continue\<close>, be it directly or in the handler of
  \<^verbatim>\<open>ValueError\<close>.
\<close>

definition extract_line :: "Line \<Rightarrow> LineElement option" where
  "extract_line line =
     (let content = strip (line_content line);
          source = line_source line
      in if source = [] \<or> content = [] then None
         else (case parse_source_coordinates source of
                 Inl e \<Rightarrow> None
               | Inr (parsed_page, left_x, top_y, right_x, bottom_y) \<Rightarrow>
                   if is_noise_element content then None
                   else (case is_line_number content of
                           Inl e \<Rightarrow> None
                         | Inr b \<Rightarrow>
                             Some \<lparr>content = content, y_position = top_y, x_position = left_x,
                                   page_number = parsed_page, el_is_line_number = b\<rparr>)))"

definition extract_lines_from_page :: "Page \<Rightarrow> LineElement list" where
  "extract_lines_from_page page_data = List.map_filter extract_line (page_lines page_data)"

text \<open>The same loop in the offset-tracking variant; its checks come in another order.\<close>

definition extract_line_offsets :: "Line \<Rightarrow> LineElement_offsets option" where
  "extract_line_offsets line =
     (let content = strip (line_content line)
      in if content = [] \<or> is_noise_element content then None
         else
           (let source = line_source line
            in if source = [] then None
               else (case parse_source_coordinates_offsets source of
                       Inl e \<Rightarrow> None
                     | Inr (page_num, left_x, top_y, right_x, bottom_y, bbox_str) \<Rightarrow>
                         (case is_line_number content of
                            Inl e \<Rightarrow> None
                          | Inr b \<Rightarrow>
                              Some \<lparr>content = content, y_position = top_y, x_position = left_x,
                                    page_number = page_num, el_is_line_number = b,
                                    original_offset = (case line_span line of None \<Rightarrow> None | Some sp \<Rightarrow> fst sp),
                                    original_length = (case line_span line of None \<Rightarrow> None | Some sp \<Rightarrow> snd sp),
                                    bbox = Some bbox_str\<rparr>))))"

definition extract_lines_from_page_offsets :: "Page \<Rightarrow> LineElement_offsets list" where
  "extract_lines_from_page_offsets page_data =
     List.map_filter extract_line_offsets (page_lines page_data)"

subsection \<open>Line grouper\<close>

text \<open>
  The loop of the plain \<^verbatim>\<open>group_lines_by_vertical_position\<close> over
  \<^verbatim>\<open>sorted_elements[1:]\<close>, with its three variables \<^verbatim>\<open>groups\<close>, \<^verbatim>\<open>current_group\<close>
  and \<^verbatim>\<open>current_y\<close>.
\<close>

fun group_loop ::
  "rat \<Rightarrow> LineElement list list \<Rightarrow> LineElement list \<Rightarrow> rat \<Rightarrow> LineElement list
     \<Rightarrow> LineElement list list \<times> LineElement list" where
  "group_loop y_tolerance groups current_group current_y [] = (groups, current_group)"
| "group_loop y_tolerance groups current_group current_y (element # rest) =
     (if \<bar>y_position element - current_y\<bar> \<le> y_tolerance
      then group_loop y_tolerance groups (current_group @ [element]) current_y rest
      else group_loop y_tolerance (groups @ [current_group]) [element] (y_position element) rest)"

definition group_lines_by_vertical_position ::
  "LineElement list \<Rightarrow> rat \<Rightarrow> LineElement list list" where
  "group_lines_by_vertical_position elements y_tolerance =
     (if elements = [] then []
      else
        (let sorted_elements = sort_key y_position elements;
             (groups, current_group) =
               group_loop y_tolerance [] [hd sorted_elements] (y_position (hd sorted_elements))
                 (tl sorted_elements)
         in if current_group \<noteq> [] then groups @ [current_group] else groups))"

text \<open>
  The offset-tracking variant keeps no \<^verbatim>\<open>current_y\<close>: it compares with
  \<^verbatim>\<open>current_group[0].y_position\<close>, and strictly.
\<close>

fun group_loop_offsets ::
  "rat \<Rightarrow> LineElement_offsets list list \<Rightarrow> LineElement_offsets list \<Rightarrow> LineElement_offsets list
     \<Rightarrow> LineElement_offsets list list \<times> LineElement_offsets list" where
  "group_loop_offsets y_tolerance groups current_group [] = (groups, current_group)"
| "group_loop_offsets y_tolerance groups current_group (element # rest) =
     (if \<bar>y_position element - y_position (hd current_group)\<bar> < y_tolerance
      then group_loop_offsets y_tolerance groups (current_group @ [element]) rest
      else group_loop_offsets y_tolerance (groups @ [current_group]) [element] rest)"

definition group_lines_by_vertical_position_offsets ::
  "LineElement_offsets list \<Rightarrow> rat \<Rightarrow> LineElement_offsets list list" where
  "group_lines_by_vertical_position_offsets elements y_tolerance =
     (if elements = [] then []
      else
        (let sorted_elements = sort_key y_position elements;
             (groups, current_group) =
               group_loop_offsets y_tolerance [] [hd sorted_elements] (tl sorted_elements)
         in if current_group \<noteq> [] then groups @ [current_group] else groups))"

text \<open>The default \<^verbatim>\<open>y_tolerance\<close> of both variants.\<close>

definition default_y_tolerance :: rat where
  "default_y_tolerance = 0.15"

subsection \<open>Line assembler, plain variant\<close>

definition newline :: string where
  "newline = [CHR 0x0A]"

text \<open>
  The body of the loop of \<^verbatim>\<open>reflow_page_with_line_numbers\<close> over the groups, as a
  function of \<^verbatim>\<open>output_lines\<close>; a group without content elements is the
  \<^verbatim>\<open>continue\<close>.
\<close>

definition reflow_group :: "string \<Rightarrow> string list \<Rightarrow> LineElement list \<Rightarrow> string list" where
  "reflow_group separator output_lines group0 =
     (let group = sort_key x_position group0;
          line_numbers = filter el_is_line_number group;
          content_elements = filter (\<lambda>e. \<not> el_is_line_number e) group
      in if content_elements = [] then output_lines
         else
           (let combined_content = join '' '' (map content content_elements)
            in if line_numbers \<noteq> []
               then output_lines @ [content (hd line_numbers) @ separator @ combined_content]
               else output_lines @ [combined_content]))"

definition reflow_page_with_line_numbers :: "Page \<Rightarrow> string \<Rightarrow> string" where
  "reflow_page_with_line_numbers page_data separator =
     (let elements = extract_lines_from_page page_data
      in if elements = [] then []
         else join newline
                (foldl (reflow_group separator) []
                   (group_lines_by_vertical_position elements default_y_tolerance)))"

subsection \<open>Document orchestrator, plain variant\<close>

definition page_marker :: "int \<Rightarrow> string" where
  "page_marker number = ''<!-- Page '' @ str_int number @ '' -->'' @ newline"

text \<open>The body of the loop of \<^verbatim>\<open>reflow_document\<close> over the pages, on \<^verbatim>\<open>output_parts\<close>.\<close>

definition reflow_document_step :: "int option \<Rightarrow> string \<Rightarrow> string list \<Rightarrow> Page \<Rightarrow> string list" where
  "reflow_document_step target_page separator output_parts page =
     (let page_number = (case pageNumber page of None \<Rightarrow> 0 | Some n \<Rightarrow> n)
      in if target_page \<noteq> None \<and> Some page_number \<noteq> target_page then output_parts
         else
           (let page_output = reflow_page_with_line_numbers page separator
            in if page_output \<noteq> [] then
                 (if target_page = None
                  then output_parts @ [page_marker page_number] @ [page_output] @ [[]]
                  else output_parts @ [page_output] @ [[]])
               else output_parts))"

definition reflow_document :: "Document \<Rightarrow> int option \<Rightarrow> string \<Rightarrow> error + string" where
  "reflow_document json_data target_page separator =
     (if contents json_data = [] then Inl (ValueError ''No contents found in JSON data'')
      else
        (let content0 = hd (contents json_data)
         in if pages content0 = [] then Inl (ValueError ''No pages found in document content'')
            else Inr (join newline
                        (foldl (reflow_document_step target_page separator) [] (pages content0)))))"

subsection \<open>Offset mapping\<close>

text \<open>
  An \<^verbatim>\<open>offset\<close> dictionary \<^verbatim>\<open>{"start": a, "end": b}\<close> is the pair \<open>(a, b)\<close>. The cursor
  starts at 0 and only grows by lengths, so offsets are natural numbers.
\<close>

type_synonym offset = "nat \<times> nat"

record WordOffsetInfo =
  word_content :: string
  word_offset :: offset
  word_bbox :: string
  word_original_offset :: "int option"

record LineOffsetInfo =
  line_info_content :: string
  line_info_offset :: offset
  line_info_bbox :: "string option"
  line_info_words :: "WordOffsetInfo list"

record PageOffsetInfo =
  page_info_number :: int
  page_info_offset :: offset
  page_info_lines :: "LineOffsetInfo list"

record OffsetMapping =
  mapping_pages :: "PageOffsetInfo list"

subsection \<open>Line assembler, offset-tracking variant\<close>

text \<open>\<^verbatim>\<open>x or ""\<close> on an optional text.\<close>

definition or_empty :: "string option \<Rightarrow> string" where
  "or_empty x = (case x of None \<Rightarrow> [] | Some s \<Rightarrow> s)"

text \<open>
  The loop \<^verbatim>\<open>for i, elem in enumerate(content_elements)\<close> on the variables
  \<^verbatim>\<open>line_parts\<close>, \<^verbatim>\<open>word_offset_infos\<close> and \<^verbatim>\<open>current_offset\<close>.
\<close>

fun add_content_elements ::
  "nat \<Rightarrow> LineElement_offsets list \<Rightarrow> string list \<times> WordOffsetInfo list \<times> nat
     \<Rightarrow> string list \<times> WordOffsetInfo list \<times> nat" where
  "add_content_elements i [] st = st"
| "add_content_elements i (elem # rest) (line_parts, word_offset_infos, current_offset) =
     (let (line_parts1, current_offset1) =
            (if i > 0 then (line_parts @ ['' ''], current_offset + 1)
             else (line_parts, current_offset))
      in add_content_elements (Suc i) rest
           (line_parts1 @ [content elem],
            word_offset_infos @
              [\<lparr>word_content = content elem,
                word_offset = (current_offset1, current_offset1 + length (content elem)),
                word_bbox = or_empty (bbox elem),
                word_original_offset = original_offset elem\<rparr>],
            current_offset1 + length (content elem)))"

text \<open>
  The body of the loop of \<^verbatim>\<open>reflow_page_with_line_numbers_and_offsets\<close> over the
  groups, on \<^verbatim>\<open>output_lines\<close>, \<^verbatim>\<open>line_offset_infos\<close> and \<^verbatim>\<open>current_offset\<close>.
\<close>

definition reflow_group_offsets ::
  "string \<Rightarrow> string list \<times> LineOffsetInfo list \<times> nat \<Rightarrow> LineElement_offsets list
     \<Rightarrow> string list \<times> LineOffsetInfo list \<times> nat" where
  "reflow_group_offsets separator st group0 =
     (let (output_lines, line_offset_infos, current_offset) = st;
          group = sort_key x_position group0;
          line_numbers = filter el_is_line_number group;
          content_elements = filter (\<lambda>e. \<not> el_is_line_number e) group
      in if content_elements = [] then st
         else
           (let line_start_offset = current_offset;
                numbered =
                  (if line_numbers \<noteq> [] then
                     (let line_num = content (hd line_numbers)
                      in ([line_num, separator],
                          [\<lparr>word_content = line_num,
                            word_offset = (current_offset, current_offset + length line_num),
                            word_bbox = or_empty (bbox (hd line_numbers)),
                            word_original_offset = original_offset (hd line_numbers)\<rparr>],
                          current_offset + length line_num + length separator))
                   else ([], [], current_offset));
                (line_parts, word_offset_infos, current_offset2) =
                  add_content_elements 0 content_elements numbered;
                line_text = concat line_parts
            in (output_lines @ [line_text],
                line_offset_infos @
                  [\<lparr>line_info_content = line_text,
                    line_info_offset = (line_start_offset, current_offset2),
                    line_info_bbox = bbox (hd content_elements),
                    line_info_words = word_offset_infos\<rparr>],
                current_offset2 + 1)))"

definition reflow_page_with_line_numbers_and_offsets ::
  "Page \<Rightarrow> string \<Rightarrow> nat \<Rightarrow> string \<times> PageOffsetInfo" where
  "reflow_page_with_line_numbers_and_offsets page_data separator current_offset =
     (let page_number = (case pageNumber page_data of None \<Rightarrow> 0 | Some n \<Rightarrow> n);
          elements = extract_lines_from_page_offsets page_data
      in if elements = [] then
           ([], \<lparr>page_info_number = page_number,
                 page_info_offset = (current_offset, current_offset),
                 page_info_lines = []\<rparr>)
         else
           (let page_start_offset = current_offset;
                line_groups = group_lines_by_vertical_position_offsets elements default_y_tolerance;
                (output_lines, line_offset_infos, page_end_offset) =
                  foldl (reflow_group_offsets separator) ([], [], current_offset) line_groups
            in (join newline output_lines,
                \<lparr>page_info_number = page_number,
                  page_info_offset = (page_start_offset, page_end_offset),
                  page_info_lines = line_offset_infos\<rparr>)))"

subsection \<open>Document orchestrator, offset-tracking variant\<close>

definition page_marker_offsets :: "int \<Rightarrow> string" where
  "page_marker_offsets number =
     newline @ ''<!-- Page '' @ str_int number @ '' -->'' @ newline"

text \<open>
  The body of the loop of \<^verbatim>\<open>reflow_document_with_offsets\<close> over the pages, on
  \<^verbatim>\<open>output_parts\<close>, the pages of \<^verbatim>\<open>offset_mapping\<close> and \<^verbatim>\<open>current_offset\<close>.
\<close>

definition reflow_document_offsets_step ::
  "int option \<Rightarrow> string \<Rightarrow> string list \<times> PageOffsetInfo list \<times> nat \<Rightarrow> Page
     \<Rightarrow> string list \<times> PageOffsetInfo list \<times> nat" where
  "reflow_document_offsets_step target_page separator st page =
     (let (output_parts, mapping, current_offset) = st;
          page_number = (case pageNumber page of None \<Rightarrow> 0 | Some n \<Rightarrow> n)
      in if target_page \<noteq> None \<and> Some page_number \<noteq> target_page then st
         else
           (let (output_parts1, current_offset1) =
                  (if target_page = None
                   then (output_parts @ [page_marker_offsets page_number],
                         current_offset + length (page_marker_offsets page_number))
                   else (output_parts, current_offset));
                (page_output, page_offset_info) =
                  reflow_page_with_line_numbers_and_offsets page separator current_offset1
            in if page_output \<noteq> [] then
                 (output_parts1 @ [page_output],
                  mapping @ [page_offset_info],
                  current_offset1 + length page_output + (if target_page = None then 1 else 0))
               else (output_parts1, mapping, current_offset1)))"

definition reflow_document_with_offsets ::
  "Document \<Rightarrow> int option \<Rightarrow> string \<Rightarrow> error + (string \<times> OffsetMapping)" where
  "reflow_document_with_offsets json_data target_page separator =
     (if contents json_data = [] then Inl (ValueError ''No contents found in JSON data'')
      else
        (let content0 = hd (contents json_data)
         in if pages content0 = [] then Inl (ValueError ''No pages found in document content'')
            else
              (let (output_parts, mapping, current_offset) =
                     foldl (reflow_document_offsets_step target_page separator) ([], [], 0)
                       (pages content0);
                   reflowed_content =
                     (if target_page = None then join newline output_parts
                      else if length output_parts > 1 then output_parts ! 1
                      else if output_parts \<noteq> [] then output_parts ! 0
                      else [])
               in Inr (reflowed_content, \<lparr>mapping_pages = mapping\<rparr>))))"

subsection \<open>Spans of a mapping, in emission order\<close>

definition page_spans :: "OffsetMapping \<Rightarrow> offset list" where
  "page_spans m = map page_info_offset (mapping_pages m)"

definition line_infos :: "OffsetMapping \<Rightarrow> LineOffsetInfo list" where
  "line_infos m = concat (map page_info_lines (mapping_pages m))"

definition word_infos :: "OffsetMapping \<Rightarrow> WordOffsetInfo list" where
  "word_infos m = concat (map line_info_words (line_infos m))"



text \<open>\<^verbatim>\<open>spans[i].end <= spans[i+1].start\<close> for every consecutive pair.\<close>

fun non_overlapping :: "offset list \<Rightarrow> bool" where
  "non_overlapping (a # b # rest) = (snd a \<le> fst b \<and> non_overlapping (b # rest))"
| "non_overlapping rest = True"

subsection \<open>Invariants of the cursor\<close>

text \<open>
  \<open>chained lo spans hi\<close>: the spans lie between \<open>lo\<close> and \<open>hi\<close>, each starts where
  or after the one before it ends, and none ends before it starts.
\<close>

fun chained :: "nat \<Rightarrow> offset list \<Rightarrow> nat \<Rightarrow> bool" where
  "chained lo [] hi = (lo \<le> hi)"
| "chained lo (s # ss) hi = (lo \<le> fst s \<and> fst s \<le> snd s \<and> chained (snd s) ss hi)"

text \<open>The word spans of a list of lines, in emission order.\<close>

definition line_words :: "LineOffsetInfo list \<Rightarrow> offset list" where
  "line_words li = concat (map (\<lambda>l. map word_offset (line_info_words l)) li)"

text \<open>
  The state of the loop over the groups of a page that started at cursor \<open>c1\<close>: the
  cursor is one past the end of the lines joined so far, and the line and word spans
  lie in the stretch of those lines.
\<close>

definition page_inv :: "nat \<Rightarrow> string list \<times> LineOffsetInfo list \<times> nat \<Rightarrow> bool" where
  "page_inv c1 st =
     (case st of (output_lines, infos, c) \<Rightarrow>
        if output_lines = [] then infos = [] \<and> c = c1
        else c = c1 + length (join newline output_lines) + 1 \<and>
             chained c1 (map line_info_offset infos) (c1 + length (join newline output_lines)) \<and>
             chained c1 (line_words infos) (c1 + length (join newline output_lines)))"

text \<open>
  \<open>cuts T c1 sp s\<close>: in a text \<open>T\<close> that starts at cursor \<open>c1\<close>, the span \<open>sp\<close> lies
  inside \<open>T\<close>, is as long as \<open>s\<close>, and cuts \<open>s\<close> out of \<open>T\<close>.
\<close>

definition cuts :: "string \<Rightarrow> nat \<Rightarrow> offset \<Rightarrow> string \<Rightarrow> bool" where
  "cuts T c1 sp s =
     (c1 \<le> fst sp \<and> snd sp = fst sp + length s \<and> snd sp - c1 \<le> length T \<and>
      slice T (fst sp - c1) (snd sp - c1) = s)"

text \<open>
  The state of the loop over the groups of a page that started at cursor \<open>c1\<close>: every
  line span and every word span emitted so far cuts its content out of the lines joined
  so far.
\<close>

definition page_cuts :: "nat \<Rightarrow> string list \<times> LineOffsetInfo list \<times> nat \<Rightarrow> bool" where
  "page_cuts c1 st =
     (case st of (output_lines, infos, c) \<Rightarrow>
        \<forall>l \<in> set infos.
          cuts (join newline output_lines) c1 (line_info_offset l) (line_info_content l) \<and>
          (\<forall>w \<in> set (line_info_words l).
             cuts (join newline output_lines) c1 (word_offset w) (word_content w)))"


subsection \<open>Rows of a grouping\<close>






subsection \<open>The scenario page of the specification\<close>

definition scenario_lines :: "Line list" where
  "scenario_lines =
     [\<lparr>line_content = ''1'', line_source = ''D(1,0.1,0.5,0.3,0.5,0.3,0.9,0.1,0.9)'',
       line_span = None\<rparr>,
      \<lparr>line_content = ''INDEX'', line_source = ''D(1,0.5,0.5,2.1,0.5,2.1,0.9,0.5,0.9)'',
       line_span = None\<rparr>]"

definition scenario_page :: Page where
  "scenario_page = \<lparr>pageNumber = Some 1, page_lines = scenario_lines\<rparr>"



text \<open>
  A line whose descriptor does not parse, a page that holds nothing else, and the
  scenario document followed by that page.
\<close>

definition bad_line :: Line where
  "bad_line = \<lparr>line_content = ''WITNESS'', line_source = ''D(1,bad)'', line_span = None\<rparr>"

definition blank_page :: Page where
  "blank_page = \<lparr>pageNumber = Some 2, page_lines = [bad_line]\<rparr>"

definition scenario_blank_document :: Document where
  "scenario_blank_document =
     \<lparr>contents = [\<lparr>kind = Some ''document'', pages = [scenario_page, blank_page]\<rparr>]\<rparr>"

text \<open>A row that holds a line number and no content, in both element types.\<close>

definition number_only_row :: "LineElement list" where
  "number_only_row =
     [\<lparr>content = ''7'', y_position = 3, x_position = 0.1, page_number = 1,
       el_is_line_number = True\<rparr>]"

definition number_only_row_offsets :: "LineElement_offsets list" where
  "number_only_row_offsets =
     [\<lparr>content = ''7'', y_position = 3, x_position = 0.1, page_number = 1,
       el_is_line_number = True, original_offset = None, original_length = None,
       bbox = Some ''D(1,0.1,3,0.2,0.2)''\<rparr>]"

text \<open>\<^verbatim>\<open>page.get('pageNumber', 0)\<close>, the number a page declares.\<close>

definition declared_number :: "Page \<Rightarrow> int" where
  "declared_number page = (case pageNumber page of None \<Rightarrow> 0 | Some n \<Rightarrow> n)"

section \<open>Evaluation on concrete descriptors\<close>

lemmas text_defs = is_ascii_digit_def strip_def py_isspace_def decimal_value_def digit_val_def
  py_int_def Let_def

lemmas parse_defs = match_source_def parse_coords_def py_float_def float_unsigned_def
  float_exponent_def parse_source_coordinates_def parse_source_coordinates_offsets_def

lemmas classifier_defs = is_line_number_def is_noise_element_def py_isdigit_def
  py_isdigit_char_def py_isalnum_def py_isalnum_char_def

lemma parse_number_unit:
  "parse_source_coordinates ''D(1,0.1,0.5,0.3,0.5,0.3,0.9,0.1,0.9)'' = Inr (1, 0.1, 0.5, 0.3, 0.9)"
  "parse_source_coordinates_offsets ''D(1,0.1,0.5,0.3,0.5,0.3,0.9,0.1,0.9)'' =
     Inr (1, 0.1, 0.5, 0.3, 0.9, ''D(1,0.1,0.5,0.3,0.5,0.3,0.9,0.1,0.9)'')"
  by (simp_all add: parse_defs text_defs)

lemma parse_index_unit:
  "parse_source_coordinates ''D(1,0.5,0.5,2.1,0.5,2.1,0.9,0.5,0.9)'' = Inr (1, 0.5, 0.5, 2.1, 0.9)"
  "parse_source_coordinates_offsets ''D(1,0.5,0.5,2.1,0.5,2.1,0.9,0.5,0.9)'' =
     Inr (1, 0.5, 0.5, 2.1, 0.9, ''D(1,0.5,0.5,2.1,0.5,2.1,0.9,0.5,0.9)'')"
  by (simp_all add: parse_defs text_defs)

lemma parse_bad_unit:
  "parse_source_coordinates ''D(1,bad)'' = Inl ValueError_builtin"
  "parse_source_coordinates_offsets ''D(1,bad)'' = Inl ValueError_builtin"
  by (simp_all add: parse_defs text_defs)

lemma extract_scenario_page:
  "extract_lines_from_page \<lparr>pageNumber = n, page_lines = scenario_lines\<rparr> =
     [\<lparr>content = ''1'', y_position = 0.5, x_position = 0.1, page_number = 1,
       el_is_line_number = True\<rparr>,
      \<lparr>content = ''INDEX'', y_position = 0.5, x_position = 0.5, page_number = 1,
       el_is_line_number = False\<rparr>]"
  by (simp add: scenario_lines_def extract_lines_from_page_def
      extract_line_def List.map_filter_simps parse_number_unit parse_index_unit
      classifier_defs text_defs)



lemma reflow_scenario_page:
  "reflow_page_with_line_numbers \<lparr>pageNumber = n, page_lines = scenario_lines\<rparr> '' | '' =
     ''1 | INDEX''"
  by (simp add: reflow_page_with_line_numbers_def extract_scenario_page
      group_lines_by_vertical_position_def default_y_tolerance_def reflow_group_def Let_def)

lemma extract_blank_page: "extract_lines_from_page blank_page = []"
  by (simp add: blank_page_def bad_line_def extract_lines_from_page_def extract_line_def
      List.map_filter_simps parse_bad_unit text_defs)


section \<open>Geometry normalization\<close>



text \<open>
  Claim C6, as stated: the quadrilateral \<open>(1,2,1,6,2,6,2,1)\<close> is normalized to
  \<open>left = 1\<close>, \<open>top = 1\<close>, \<open>right = 6\<close>, \<open>bottom = 2\<close>. The code returns another
  rectangle, for the coordinate list and for a descriptor of page 1 that carries it.
\<close>

theorem C6_quadrilateral_example_counterexample:
  "normalize_coords [1, 2, 1, 6, 2, 6, 2, 1] \<noteq> Some (1, 1, 6, 2) \<and>
   parse_source_coordinates ''D(1,1,2,1,6,2,6,2,1)'' \<noteq> Inr (1, 1, 1, 6, 2)"
  by (simp add: parse_defs text_defs)

text \<open>
  Claim C6, amended: the quadrilateral \<open>(1,2,1,6,2,6,2,1)\<close> is normalized to
  \<open>left = 1\<close>, \<open>top = 2\<close>, \<open>right = 2\<close>, \<open>bottom = 6\<close>; the axis-aligned box
  \<open>left = 1\<close>, \<open>top = 2\<close>, \<open>width = 3\<close>, \<open>height = 4\<close> to \<open>right = 4\<close>,
  \<open>bottom = 6\<close>.
\<close>

theorem C6_geometry_examples:
  "normalize_coords [1, 2, 1, 6, 2, 6, 2, 1] = Some (1, 2, 2, 6) \<and>
   parse_source_coordinates ''D(1,1,2,1,6,2,6,2,1)'' = Inr (1, 1, 2, 2, 6) \<and>
   normalize_coords [1, 2, 3, 4] = Some (1, 2, 4, 6) \<and>
   parse_source_coordinates ''D(1,1,2,3,4)'' = Inr (1, 1, 2, 4, 6)"
  by (simp add: parse_defs text_defs)

section \<open>Element classifier\<close>

text \<open>
  On every text whose stripped form is not accepted by \<^verbatim>\<open>isdigit\<close>, or consists of
  decimal digits only, the classifier returns, and returns what the specification says;
  it raises exactly on the texts of digit characters that are not all decimal.
\<close>

lemma ascii_digits_isdigit: "t \<noteq> [] \<Longrightarrow> list_all is_ascii_digit t \<Longrightarrow> py_isdigit t"
  by (simp add: py_isdigit_def py_isdigit_char_def list_all_iff)

lemma is_line_number_returns:
  assumes "\<not> py_isdigit (strip s) \<or> list_all is_ascii_digit (strip s)"
  shows "is_line_number s =
           Inr (strip s \<noteq> [] \<and> list_all is_ascii_digit (strip s) \<and>
                1 \<le> decimal_value (strip s) \<and> decimal_value (strip s) \<le> 99)"
proof (cases "py_isdigit (strip s)")
  case True
  then have "strip s \<noteq> []" "list_all is_ascii_digit (strip s)"
    using assms by (simp_all add: py_isdigit_def)
  then show ?thesis
    using True by (simp add: is_line_number_def py_int_def)
next
  case False
  then have "strip s = [] \<or> \<not> list_all is_ascii_digit (strip s)"
    using ascii_digits_isdigit by blast
  then show ?thesis
    using False by (auto simp: is_line_number_def)
qed

lemma is_line_number_raises_iff:
  "(\<exists>e. is_line_number s = Inl e) \<longleftrightarrow>
     py_isdigit (strip s) \<and> \<not> list_all is_ascii_digit (strip s)"
  by (auto simp: is_line_number_def py_int_def py_isdigit_def split: option.splits if_splits)

text \<open>
  Claim C7 says that \<^verbatim>\<open>is_line_number\<close> returns \<^verbatim>\<open>False\<close> without failing on every
  text that is not a number from 1 to 99. On the superscript two (code point 178),
  which \<^verbatim>\<open>isdigit\<close> accepts and \<^verbatim>\<open>int\<close> rejects, it raises \<^verbatim>\<open>ValueError\<close>.
  (In \<^verbatim>\<open>extract_lines_from_page\<close> the handler for a bad descriptor catches it, and
  the line is dropped.)
\<close>

theorem C7_is_line_number_raises:
  "is_line_number [CHR 0xB2] = Inl ValueError_builtin"
  by (simp add: classifier_defs text_defs)

section \<open>The scenario of the specification\<close>


section \<open>Rows without content\<close>

lemma no_content_after_sort:
  "filter P xs = [] \<Longrightarrow> filter P (sort_key f xs) = []"
  by (simp add: filter_sort)

lemma reflow_group_no_content:
  "filter (\<lambda>e. \<not> el_is_line_number e) g = [] \<Longrightarrow>
     reflow_group separator output_lines g = output_lines"
  by (simp add: reflow_group_def no_content_after_sort Let_def)

lemma reflow_group_offsets_no_content:
  "filter (\<lambda>e. \<not> el_is_line_number e) g = [] \<Longrightarrow> reflow_group_offsets separator st g = st"
  by (simp add: reflow_group_offsets_def no_content_after_sort Let_def split: prod.splits)

text \<open>
  Claim C4. A row (group) whose content elements are none leaves the state of the loop
  as it is: in the plain variant no line is added to \<^verbatim>\<open>output_lines\<close>, in the
  offset-tracking variant neither \<^verbatim>\<open>output_lines\<close> nor \<^verbatim>\<open>line_offset_infos\<close> nor
  the cursor \<^verbatim>\<open>current_offset\<close> changes; so the loop over all rows ends as it would
  without that row.
\<close>

theorem C4_row_without_content_dropped:
  assumes "filter (\<lambda>e. \<not> el_is_line_number e) g = []"
    and "filter (\<lambda>e. \<not> el_is_line_number e) g' = []"
  shows "reflow_group separator output_lines g = output_lines \<and>
         foldl (reflow_group separator) output_lines (gs1 @ [g] @ gs2) =
           foldl (reflow_group separator) output_lines (gs1 @ gs2) \<and>
         reflow_group_offsets separator (output_lines', infos, cursor) g' =
           (output_lines', infos, cursor) \<and>
         foldl (reflow_group_offsets separator) st (gs1' @ [g'] @ gs2') =
           foldl (reflow_group_offsets separator) st (gs1' @ gs2')"
  using assms by (simp add: reflow_group_no_content reflow_group_offsets_no_content)

theorem C4_row_without_content_dropped_witness:
  "filter (\<lambda>e. \<not> el_is_line_number e) number_only_row = [] \<and>
   filter (\<lambda>e. \<not> el_is_line_number e) number_only_row_offsets = [] \<and>
   reflow_group '' | '' [''1 | INDEX''] number_only_row = [''1 | INDEX''] \<and>
   foldl (reflow_group '' | '') [] ([] @ [number_only_row] @ []) = [] \<and>
   reflow_group_offsets '' | '' ([''1 | INDEX''], [], 10) number_only_row_offsets =
     ([''1 | INDEX''], [], 10) \<and>
   foldl (reflow_group_offsets '' | '') ([], [], 0) ([] @ [number_only_row_offsets] @ []) =
     ([], [], 0)"
proof -
  have a: "filter (\<lambda>e. \<not> el_is_line_number e) number_only_row = []"
    by (simp add: number_only_row_def)
  have b: "filter (\<lambda>e. \<not> el_is_line_number e) number_only_row_offsets = []"
    by (simp add: number_only_row_offsets_def)
  show ?thesis
    using a b
      C4_row_without_content_dropped [OF a b, of "'' | ''" "[''1 | INDEX'']" "[]" "[]"
        "[''1 | INDEX'']" "[]" 10 "([], [], 0)" "[]" "[]"]
    by (simp add: reflow_group_no_content reflow_group_offsets_no_content)
qed

section \<open>Failures of a unit and failures of the document\<close>

lemma map_filter_drop_none:
  "f x = None \<Longrightarrow> List.map_filter f (xs @ [x] @ ys) = List.map_filter f (xs @ ys)"
  by (simp add: List.map_filter_def)

lemma extract_line_parse_fails:
  "parse_source_coordinates (line_source l) = Inl e \<Longrightarrow> extract_line l = None"
  by (simp add: extract_line_def Let_def)

text \<open>
  Claim C9 (plain variant). The descriptor \<^verbatim>\<open>D(1,bad)\<close> raises \<^verbatim>\<open>ValueError\<close> in
  the geometry parser. A line whose descriptor raises is left out and nothing else
  changes: the page yields the elements, and the text, of the page without that line.
  \<^verbatim>\<open>reflow_document\<close> returns a text for every document that has a content entry with
  pages, whatever its lines are; it raises \<^verbatim>\<open>ValueError\<close> with a message of its own
  when \<^verbatim>\<open>contents\<close> is empty and when the first content entry has no pages.
\<close>

theorem C9_unit_failure_local_structure_failure_fatal:
  "parse_source_coordinates ''D(1,bad)'' = Inl ValueError_builtin \<and>
   (\<forall>l e. parse_source_coordinates (line_source l) = Inl e \<longrightarrow>
      extract_lines_from_page (page\<lparr>page_lines := ls1 @ [l] @ ls2\<rparr>) =
        extract_lines_from_page (page\<lparr>page_lines := ls1 @ ls2\<rparr>) \<and>
      reflow_page_with_line_numbers (page\<lparr>page_lines := ls1 @ [l] @ ls2\<rparr>) separator =
        reflow_page_with_line_numbers (page\<lparr>page_lines := ls1 @ ls2\<rparr>) separator) \<and>
   (contents json_data \<noteq> [] \<and> pages (hd (contents json_data)) \<noteq> [] \<longrightarrow>
      (\<exists>T. reflow_document json_data target_page separator = Inr T)) \<and>
   (contents json_data = [] \<longrightarrow>
      reflow_document json_data target_page separator =
        Inl (ValueError ''No contents found in JSON data'')) \<and>
   (contents json_data \<noteq> [] \<and> pages (hd (contents json_data)) = [] \<longrightarrow>
      reflow_document json_data target_page separator =
        Inl (ValueError ''No pages found in document content''))"
proof -
  have unit: "extract_lines_from_page (page\<lparr>page_lines := ls1 @ [l] @ ls2\<rparr>) =
      extract_lines_from_page (page\<lparr>page_lines := ls1 @ ls2\<rparr>)"
    if "parse_source_coordinates (line_source l) = Inl e" for l e
    using map_filter_drop_none [of extract_line l ls1 ls2] extract_line_parse_fails [OF that]
    by (simp add: extract_lines_from_page_def)
  have page: "reflow_page_with_line_numbers (page\<lparr>page_lines := ls1 @ [l] @ ls2\<rparr>) separator =
      reflow_page_with_line_numbers (page\<lparr>page_lines := ls1 @ ls2\<rparr>) separator"
    if "parse_source_coordinates (line_source l) = Inl e" for l e
    unfolding reflow_page_with_line_numbers_def unit [OF that] ..
  show ?thesis
    using unit page by (simp add: parse_bad_unit reflow_document_def Let_def)
qed

theorem C9_unit_failure_local_structure_failure_fatal_witness:
  "parse_source_coordinates (line_source bad_line) = Inl ValueError_builtin \<and>
   extract_lines_from_page (scenario_page\<lparr>page_lines := [hd scenario_lines] @ [bad_line] @ tl scenario_lines\<rparr>) =
     extract_lines_from_page (scenario_page\<lparr>page_lines := [hd scenario_lines] @ tl scenario_lines\<rparr>) \<and>
   reflow_page_with_line_numbers (scenario_page\<lparr>page_lines := [hd scenario_lines] @ [bad_line] @ tl scenario_lines\<rparr>) '' | '' =
     ''1 | INDEX'' \<and>
   contents scenario_blank_document \<noteq> [] \<and> pages (hd (contents scenario_blank_document)) \<noteq> [] \<and>
   (\<exists>T. reflow_document scenario_blank_document None '' | '' = Inr T) \<and>
   contents \<lparr>contents = []\<rparr> = [] \<and>
   reflow_document \<lparr>contents = []\<rparr> None '' | '' = Inl (ValueError ''No contents found in JSON data'') \<and>
   contents \<lparr>contents = [\<lparr>kind = None, pages = []\<rparr>]\<rparr> \<noteq> [] \<and>
   pages (hd (contents \<lparr>contents = [\<lparr>kind = None, pages = []\<rparr>]\<rparr>)) = [] \<and>
   reflow_document \<lparr>contents = [\<lparr>kind = None, pages = []\<rparr>]\<rparr> None '' | '' =
     Inl (ValueError ''No pages found in document content'')"
proof -
  have bad: "parse_source_coordinates (line_source bad_line) = Inl ValueError_builtin"
    by (simp add: bad_line_def parse_bad_unit)
  have same: "scenario_page\<lparr>page_lines := hd scenario_lines # tl scenario_lines\<rparr> =
      \<lparr>pageNumber = Some 1, page_lines = scenario_lines\<rparr>"
    by (simp add: scenario_page_def scenario_lines_def)
  note unit = C9_unit_failure_local_structure_failure_fatal
    [where page = scenario_page and ?ls1.0 = "[hd scenario_lines]" and ?ls2.0 = "tl scenario_lines"
       and separator = "'' | ''" and json_data = scenario_blank_document and target_page = None]
  note empty = C9_unit_failure_local_structure_failure_fatal
    [where json_data = "\<lparr>contents = []\<rparr>" and target_page = None and separator = "'' | ''"]
  note no_pages = C9_unit_failure_local_structure_failure_fatal
    [where json_data = "\<lparr>contents = [\<lparr>kind = None, pages = []\<rparr>]\<rparr>" and target_page = None
       and separator = "'' | ''"]
  have a: "extract_lines_from_page (scenario_page\<lparr>page_lines := [hd scenario_lines] @ [bad_line] @ tl scenario_lines\<rparr>) =
      extract_lines_from_page (scenario_page\<lparr>page_lines := [hd scenario_lines] @ tl scenario_lines\<rparr>)"
    using unit bad by blast
  have b: "reflow_page_with_line_numbers (scenario_page\<lparr>page_lines := [hd scenario_lines] @ [bad_line] @ tl scenario_lines\<rparr>) '' | '' =
      reflow_page_with_line_numbers (scenario_page\<lparr>page_lines := [hd scenario_lines] @ tl scenario_lines\<rparr>) '' | ''"
    using unit bad by blast
  have c: "contents scenario_blank_document \<noteq> [] \<and> pages (hd (contents scenario_blank_document)) \<noteq> []"
    by (simp add: scenario_blank_document_def)
  have d: "\<exists>T. reflow_document scenario_blank_document None '' | '' = Inr T"
    using unit c by blast
  have e: "reflow_document \<lparr>contents = []\<rparr> None '' | '' = Inl (ValueError ''No contents found in JSON data'')"
    using empty by simp
  have f: "reflow_document \<lparr>contents = [\<lparr>kind = None, pages = []\<rparr>]\<rparr> None '' | '' =
     Inl (ValueError ''No pages found in document content'')"
    using no_pages by simp
  show ?thesis
    using bad a b c d e f by (simp add: same reflow_scenario_page)
qed

section \<open>Page markers of the plain variant\<close>

lemma reflow_document_step_unfiltered:
  "foldl (reflow_document_step None separator) output_parts ps =
     output_parts @
     concat (map (\<lambda>p. if reflow_page_with_line_numbers p separator = [] then []
                       else [page_marker (declared_number p),
                             reflow_page_with_line_numbers p separator, []]) ps)"
  by (induction ps arbitrary: output_parts)
     (simp_all add: reflow_document_step_def declared_number_def Let_def)

text \<open>
  Claim C10. Without a target page, the parts that \<^verbatim>\<open>reflow_document\<close> joins are, page
  by page, nothing for a page whose reflowed text is empty and otherwise the marker
  line of the page's declared number, the page's text and the empty part of the blank
  line; and a page from which no element is extracted has an empty text.
\<close>

theorem C10_marker_only_for_nonempty_page:
  assumes "contents json_data \<noteq> []" and "pages (hd (contents json_data)) \<noteq> []"
  shows "reflow_document json_data None separator =
           Inr (join newline
                  (concat (map (\<lambda>p. if reflow_page_with_line_numbers p separator = [] then []
                                     else [page_marker (declared_number p),
                                           reflow_page_with_line_numbers p separator, []])
                             (pages (hd (contents json_data)))))) \<and>
         (\<forall>p. extract_lines_from_page p = [] \<longrightarrow> reflow_page_with_line_numbers p separator = [])"
  using assms
  by (simp add: reflow_document_def reflow_document_step_unfiltered
      reflow_page_with_line_numbers_def Let_def)

theorem C10_marker_only_for_nonempty_page_witness:
  "contents scenario_blank_document \<noteq> [] \<and>
   pages (hd (contents scenario_blank_document)) \<noteq> [] \<and>
   reflow_document scenario_blank_document None '' | '' =
     Inr (''<!-- Page 1 -->'' @ newline @ newline @ ''1 | INDEX'' @ newline) \<and>
   extract_lines_from_page blank_page = [] \<and>
   reflow_page_with_line_numbers blank_page '' | '' = []"
proof -
  have a: "contents scenario_blank_document \<noteq> []"
    by (simp add: scenario_blank_document_def)
  have b: "pages (hd (contents scenario_blank_document)) \<noteq> []"
    by (simp add: scenario_blank_document_def)
  note t = C10_marker_only_for_nonempty_page [OF a b, of "'' | ''"]
  have c: "reflow_page_with_line_numbers blank_page '' | '' = []"
    using t extract_blank_page by blast
  have d: "reflow_document scenario_blank_document None '' | '' =
     Inr (''<!-- Page 1 -->'' @ newline @ newline @ ''1 | INDEX'' @ newline)"
    using t c
    by (simp add: scenario_blank_document_def scenario_page_def reflow_scenario_page
        declared_number_def page_marker_def str_int_def str_nat.simps blank_page_def newline_def)
  show ?thesis
    using a b c d extract_blank_page by simp
qed

section \<open>Grouping by vertical position\<close>















section \<open>Order of the spans\<close>

lemma non_overlapping_nth:
  "non_overlapping xs \<longleftrightarrow> (\<forall>i. Suc i < length xs \<longrightarrow> snd (xs ! i) \<le> fst (xs ! Suc i))"
proof (induction xs rule: non_overlapping.induct)
  case (1 a b rest)
  have "(\<forall>i. Suc i < length (a # b # rest) \<longrightarrow>
           snd ((a # b # rest) ! i) \<le> fst ((a # b # rest) ! Suc i)) \<longleftrightarrow>
        snd a \<le> fst b \<and>
        (\<forall>i. Suc i < length (b # rest) \<longrightarrow> snd ((b # rest) ! i) \<le> fst ((b # rest) ! Suc i))"
    (is "?L \<longleftrightarrow> ?R")
  proof
    assume l: ?L
    have "snd a \<le> fst b"
      using l [rule_format, of 0] by simp
    moreover have "snd ((b # rest) ! i) \<le> fst ((b # rest) ! Suc i)" if "Suc i < length (b # rest)" for i
      using l [rule_format, of "Suc i"] that by simp
    ultimately show ?R by blast
  next
    assume r: ?R
    show ?L
    proof (intro allI impI)
      fix i assume "Suc i < length (a # b # rest)"
      then show "snd ((a # b # rest) ! i) \<le> fst ((a # b # rest) ! Suc i)"
        using r by (cases i) auto
    qed
  qed
  with 1 show ?case by simp
qed simp_all

lemma chained_le: "chained lo xs hi \<Longrightarrow> lo \<le> hi"
proof (induction xs arbitrary: lo)
  case Nil
  then show ?case by simp
next
  case (Cons s ss)
  then have "snd s \<le> hi" by simp
  with Cons.prems show ?case by simp
qed

lemma chained_mono: "chained lo xs hi \<Longrightarrow> lo' \<le> lo \<Longrightarrow> hi \<le> hi' \<Longrightarrow> chained lo' xs hi'"
  by (induction xs arbitrary: lo lo') auto

lemma chained_append: "chained lo xs mid \<Longrightarrow> chained mid ys hi \<Longrightarrow> chained lo (xs @ ys) hi"
  by (induction xs arbitrary: lo) (auto intro: chained_mono)

lemma chained_snoc: "chained lo xs mid \<Longrightarrow> mid \<le> a \<Longrightarrow> a \<le> b \<Longrightarrow> chained lo (xs @ [(a, b)]) b"
  by (rule chained_append) simp_all


lemma join_snoc: "join sep (xs @ [t]) = (if xs = [] then t else join sep xs @ sep @ t)"
  by (induction sep xs rule: join.induct) auto

lemma cuts_append: "cuts T c1 sp s \<Longrightarrow> cuts (T @ X) c1 sp s"
  by (auto simp: cuts_def slice_def)

lemma cuts_shift: "cuts t c sp s \<Longrightarrow> c = c1 + length P \<Longrightarrow> cuts (P @ t) c1 sp s"
  by (auto simp: cuts_def slice_def)

lemma cuts_whole: "cuts t c (c, c + length t) t"
  by (simp add: cuts_def slice_def)

lemma cuts_slice: "cuts T 0 sp s \<Longrightarrow> slice T (fst sp) (snd sp) = s"
  by (auto simp: cuts_def)

lemma add_content_elements_cuts:
  assumes "add_content_elements i es (parts, ws, c) = (parts', ws', c')"
    and "c = c0 + length (concat parts)"
    and "\<forall>w \<in> set ws. cuts (concat parts) c0 (word_offset w) (word_content w)"
  shows "(\<forall>w \<in> set ws'. cuts (concat parts') c0 (word_offset w) (word_content w)) \<and>
         c' = c0 + length (concat parts')"
  using assms
proof (induction es arbitrary: i parts ws c)
  case Nil
  then show ?case by auto
next
  case (Cons e es)
  define c1 where "c1 = (if i > 0 then c + 1 else c)"
  define parts1 where "parts1 = (if i > 0 then parts @ ['' ''] else parts)"
  define w where "w = \<lparr>word_content = content e,
      word_offset = (c1, c1 + length (content e)),
      word_bbox = or_empty (bbox e), word_original_offset = original_offset e\<rparr>"
  have step: "add_content_elements (Suc i) es
      (parts1 @ [content e], ws @ [w], c1 + length (content e)) = (parts', ws', c')"
    using Cons.prems(1) by (cases "i > 0") (simp_all add: c1_def parts1_def w_def)
  have c1: "c1 = c0 + length (concat parts1)"
    using Cons.prems(2) by (simp add: c1_def parts1_def)
  then have len: "c1 + length (content e) = c0 + length (concat (parts1 @ [content e]))"
    by simp
  have ext: "concat (parts1 @ [content e]) = concat parts @ drop (length (concat parts)) (concat (parts1 @ [content e]))"
    by (simp add: parts1_def)
  have old: "cuts (concat (parts1 @ [content e])) c0 (word_offset v) (word_content v)"
    if "v \<in> set ws" for v
    using Cons.prems(3) that cuts_append [of "concat parts" c0 "word_offset v" "word_content v"]
    by (subst ext) blast
  have new: "cuts (concat (parts1 @ [content e])) c0 (word_offset w) (word_content w)"
    using cuts_shift [OF cuts_whole [of "content e" c1], of c0 "concat parts1"] c1
    by (simp add: w_def)
  from Cons.IH [OF step len] old new show ?case
    by auto
qed

lemma add_content_elements_spans:
  assumes "add_content_elements i es (parts, ws, c) = (parts', ws', c')"
    and "chained a (map word_offset ws) c"
  shows "chained a (map word_offset ws') c' \<and> c' + length (concat parts) = c + length (concat parts')"
  using assms
proof (induction es arbitrary: i parts ws c)
  case Nil
  then show ?case by simp
next
  case (Cons e es)
  define c1 where "c1 = (if i > 0 then c + 1 else c)"
  define parts1 where "parts1 = (if i > 0 then parts @ ['' ''] else parts)"
  define w where "w = \<lparr>word_content = content e,
      word_offset = (c1, c1 + length (content e)),
      word_bbox = or_empty (bbox e), word_original_offset = original_offset e\<rparr>"
  have step: "add_content_elements (Suc i) es
      (parts1 @ [content e], ws @ [w], c1 + length (content e)) = (parts', ws', c')"
    using Cons.prems(1) by (cases "i > 0") (simp_all add: c1_def parts1_def w_def)
  have "c \<le> c1"
    by (simp add: c1_def)
  then have spans: "chained a (map word_offset (ws @ [w])) (c1 + length (content e))"
    using chained_snoc [OF Cons.prems(2), of c1 "c1 + length (content e)"] by (simp add: w_def)
  from Cons.IH [OF step spans] show ?case
    by (cases "i > 0") (simp_all add: c1_def parts1_def)
qed

lemma reflow_group_offsets_explicit:
  assumes "filter (\<lambda>e. \<not> el_is_line_number e) (sort_key x_position g) \<noteq> []"
  shows "\<exists>parts0 ws0 c0 parts ws c2.
           c0 = c + length (concat parts0) \<and>
           chained c (map word_offset ws0) c0 \<and>
           (\<forall>w \<in> set ws0. cuts (concat parts0) c (word_offset w) (word_content w)) \<and>
           add_content_elements 0 (filter (\<lambda>e. \<not> el_is_line_number e) (sort_key x_position g))
             (parts0, ws0, c0) = (parts, ws, c2) \<and>
           reflow_group_offsets separator (ol, li, c) g =
             (ol @ [concat parts],
              li @ [\<lparr>line_info_content = concat parts, line_info_offset = (c, c2),
                     line_info_bbox =
                       bbox (hd (filter (\<lambda>e. \<not> el_is_line_number e) (sort_key x_position g))),
                     line_info_words = ws\<rparr>],
              c2 + 1)"
proof -
  define content_elements where
    "content_elements = filter (\<lambda>e. \<not> el_is_line_number e) (sort_key x_position g)"
  define line_numbers where "line_numbers = filter el_is_line_number (sort_key x_position g)"
  define numbered where "numbered =
     (if line_numbers \<noteq> [] then
        ([content (hd line_numbers), separator],
         [\<lparr>word_content = content (hd line_numbers),
           word_offset = (c, c + length (content (hd line_numbers))),
           word_bbox = or_empty (bbox (hd line_numbers)),
           word_original_offset = original_offset (hd line_numbers)\<rparr>],
         c + length (content (hd line_numbers)) + length separator)
      else ([], [], c))"
  obtain parts0 ws0 c0 where n: "numbered = (parts0, ws0, c0)"
    by (cases numbered)
  have n_len: "c0 = c + length (concat parts0)"
    and n_spans: "chained c (map word_offset ws0) c0"
    and n_cuts: "\<forall>w \<in> set ws0. cuts (concat parts0) c (word_offset w) (word_content w)"
    using n by (auto simp: numbered_def cuts_def slice_def split: if_splits)
  obtain parts ws c2 where
    a: "add_content_elements 0 content_elements (parts0, ws0, c0) = (parts, ws, c2)"
    by (cases "add_content_elements 0 content_elements (parts0, ws0, c0)")
  have "reflow_group_offsets separator (ol, li, c) g =
      (case add_content_elements 0 content_elements numbered of
         (line_parts, word_offset_infos, current_offset2) \<Rightarrow>
           (ol @ [concat line_parts],
            li @ [\<lparr>line_info_content = concat line_parts,
                   line_info_offset = (c, current_offset2),
                   line_info_bbox = bbox (hd content_elements),
                   line_info_words = word_offset_infos\<rparr>],
            current_offset2 + 1))"
    using assms
    unfolding reflow_group_offsets_def numbered_def content_elements_def line_numbers_def
    by (simp add: Let_def split del: if_split cong: if_cong)
  then have "reflow_group_offsets separator (ol, li, c) g =
      (ol @ [concat parts],
       li @ [\<lparr>line_info_content = concat parts, line_info_offset = (c, c2),
              line_info_bbox = bbox (hd content_elements), line_info_words = ws\<rparr>],
       c2 + 1)"
    using a n by simp
  then show ?thesis
    using n_len n_spans n_cuts a unfolding content_elements_def by blast
qed

lemma reflow_group_offsets_content:
  assumes "filter (\<lambda>e. \<not> el_is_line_number e) (sort_key x_position g) \<noteq> []"
  shows "\<exists>t l. reflow_group_offsets separator (ol, li, c) g = (ol @ [t], li @ [l], c + length t + 1) \<and>
           line_info_offset l = (c, c + length t) \<and> line_info_content l = t \<and>
           chained c (map word_offset (line_info_words l)) (c + length t) \<and>
           (\<forall>w \<in> set (line_info_words l). cuts t c (word_offset w) (word_content w))"
proof -
  from reflow_group_offsets_explicit [OF assms, of c separator ol li]
  obtain parts0 ws0 c0 parts ws c2 where
    len0: "c0 = c + length (concat parts0)"
    and spans0: "chained c (map word_offset ws0) c0"
    and cuts0: "\<forall>w \<in> set ws0. cuts (concat parts0) c (word_offset w) (word_content w)"
    and a: "add_content_elements 0 (filter (\<lambda>e. \<not> el_is_line_number e) (sort_key x_position g))
             (parts0, ws0, c0) = (parts, ws, c2)"
    and r: "reflow_group_offsets separator (ol, li, c) g =
             (ol @ [concat parts],
              li @ [\<lparr>line_info_content = concat parts, line_info_offset = (c, c2),
                     line_info_bbox =
                       bbox (hd (filter (\<lambda>e. \<not> el_is_line_number e) (sort_key x_position g))),
                     line_info_words = ws\<rparr>],
              c2 + 1)"
    by blast
  from add_content_elements_spans [OF a spans0] have spans: "chained c (map word_offset ws) c2"
    by simp
  from add_content_elements_cuts [OF a len0 cuts0]
  have cuts: "\<forall>w \<in> set ws. cuts (concat parts) c (word_offset w) (word_content w)"
    and len: "c2 = c + length (concat parts)"
    by simp_all
  show ?thesis
    using r spans cuts len by simp
qed

lemma page_inv_step:
  assumes "page_inv c1 st"
  shows "page_inv c1 (reflow_group_offsets separator st g)"
proof (cases "filter (\<lambda>e. \<not> el_is_line_number e) (sort_key x_position g) = []")
  case True
  then have "reflow_group_offsets separator st g = st"
    by (simp add: reflow_group_offsets_def Let_def split: prod.splits)
  then show ?thesis using assms by simp
next
  case False
  obtain ol li c where st: "st = (ol, li, c)"
    by (cases st)
  from reflow_group_offsets_content [OF False, of separator ol li c]
  obtain t l where r: "reflow_group_offsets separator (ol, li, c) g = (ol @ [t], li @ [l], c + length t + 1)"
    and lo: "line_info_offset l = (c, c + length t)"
    and ws: "chained c (map word_offset (line_info_words l)) (c + length t)"
    by blast
  show ?thesis
  proof (cases "ol = []")
    case True
    then have "li = []" "c = c1"
      using assms st by (simp_all add: page_inv_def)
    then show ?thesis
      using True r lo ws st by (simp add: page_inv_def line_words_def)
  next
    case False
    define L where "L = length (join newline ol)"
    from False have c: "c = c1 + L + 1"
      and ls: "chained c1 (map line_info_offset li) (c1 + L)"
      and wsi: "chained c1 (line_words li) (c1 + L)"
      using assms st by (simp_all add: page_inv_def L_def)
    have L': "length (join newline (ol @ [t])) = L + 1 + length t"
      using False by (simp add: join_snoc L_def newline_def)
    have "chained c1 (map line_info_offset (li @ [l])) (c1 + (L + 1 + length t))"
      using chained_snoc [OF ls, of c "c + length t"] lo c by (simp add: add.assoc)
    moreover have "chained (c1 + L) (map word_offset (line_info_words l)) (c + length t)"
      using ws c by (auto intro: chained_mono)
    then have "chained c1 (line_words (li @ [l])) (c1 + (L + 1 + length t))"
      using chained_append [OF wsi] c by (simp add: line_words_def add.assoc)
    ultimately show ?thesis
      using r st c L' by (simp add: page_inv_def)
  qed
qed

lemma page_inv_fold:
  "page_inv c1 st \<Longrightarrow> page_inv c1 (foldl (reflow_group_offsets separator) st gs)"
  by (induction gs arbitrary: st) (simp_all add: page_inv_step)

lemma reflow_page_offsets_spans:
  assumes "reflow_page_with_line_numbers_and_offsets page separator c1 = (t, info)"
    and "t \<noteq> []"
  shows "page_info_offset info = (c1, c1 + length t + 1) \<and>
         chained c1 (map line_info_offset (page_info_lines info)) (c1 + length t) \<and>
         chained c1 (line_words (page_info_lines info)) (c1 + length t)"
proof -
  define gs where "gs = group_lines_by_vertical_position_offsets
      (extract_lines_from_page_offsets page) default_y_tolerance"
  obtain ol li c where f: "foldl (reflow_group_offsets separator) ([], [], c1) gs = (ol, li, c)"
    by (cases "foldl (reflow_group_offsets separator) ([], [], c1) gs")
  have "page_inv c1 ([], [], c1)"
    by (simp add: page_inv_def)
  from page_inv_fold [OF this, of separator gs] have inv: "page_inv c1 (ol, li, c)"
    using f by simp
  have ne: "extract_lines_from_page_offsets page \<noteq> []"
    using assms by (auto simp: reflow_page_with_line_numbers_and_offsets_def Let_def)
  then have res: "t = join newline ol" "page_info_offset info = (c1, c)" "page_info_lines info = li"
    using assms(1) f
    by (auto simp: reflow_page_with_line_numbers_and_offsets_def Let_def gs_def [symmetric])
  with assms(2) have "ol \<noteq> []"
    by auto
  then show ?thesis
    using inv res by (simp add: page_inv_def)
qed








lemma distinct_filter_le_one:
  "distinct (map f xs) \<Longrightarrow> length (filter (\<lambda>x. f x = k) xs) \<le> 1"
proof (induction xs)
  case Nil
  then show ?case by simp
next
  case (Cons x xs)
  show ?case
  proof (cases "f x = k")
    case True
    then have "filter (\<lambda>y. f y = k) xs = []"
      using Cons.prems by (auto simp: filter_empty_conv image_iff)
    then show ?thesis using True by simp
  next
    case False
    then show ?thesis using Cons by simp
  qed
qed






section \<open>Round trip of the spans\<close>

lemma page_cuts_step:
  assumes "page_inv c1 st" and "page_cuts c1 st"
  shows "page_cuts c1 (reflow_group_offsets separator st g)"
proof (cases "filter (\<lambda>e. \<not> el_is_line_number e) (sort_key x_position g) = []")
  case True
  then have "reflow_group_offsets separator st g = st"
    by (simp add: reflow_group_offsets_def Let_def split: prod.splits)
  then show ?thesis using assms by simp
next
  case False
  obtain ol li c where st: "st = (ol, li, c)"
    by (cases st)
  from reflow_group_offsets_content [OF False, of separator ol li c]
  obtain t l where r: "reflow_group_offsets separator (ol, li, c) g = (ol @ [t], li @ [l], c + length t + 1)"
    and lo: "line_info_offset l = (c, c + length t)"
    and lc: "line_info_content l = t"
    and ws: "\<forall>w \<in> set (line_info_words l). cuts t c (word_offset w) (word_content w)"
    by blast
  define P where "P = (if ol = [] then [] else join newline ol @ newline)"
  have S': "join newline (ol @ [t]) = P @ t"
    by (simp add: join_snoc P_def)
  have c: "c = c1 + length P"
    using assms(1) st by (auto simp: page_inv_def P_def newline_def)
  have old: "cuts (P @ t) c1 sp s" if "cuts (join newline ol) c1 sp s" and "li \<noteq> []" for sp s
  proof -
    have "ol \<noteq> []"
      using assms(1) st that(2) by (auto simp: page_inv_def)
    then have "P @ t = join newline ol @ (newline @ t)"
      by (simp add: P_def)
    then show ?thesis
      using cuts_append [OF that(1)] by simp
  qed
  have new_line: "cuts (P @ t) c1 (line_info_offset l) (line_info_content l)"
    using cuts_shift [OF cuts_whole [of t c] c] lo lc by simp
  have new_words: "cuts (P @ t) c1 (word_offset w) (word_content w)" if "w \<in> set (line_info_words l)" for w
    using cuts_shift [OF _ c] ws that by blast
  have old_all: "cuts (P @ t) c1 (line_info_offset k) (line_info_content k) \<and>
      (\<forall>w \<in> set (line_info_words k). cuts (P @ t) c1 (word_offset w) (word_content w))"
    if "k \<in> set li" for k
  proof -
    have "li \<noteq> []" using that by auto
    then show ?thesis
      using assms(2) st that old by (auto simp: page_cuts_def)
  qed
  show ?thesis
    using r st S' new_line new_words old_all by (auto simp: page_cuts_def)
qed

lemma page_inv_cuts_fold:
  "page_inv c1 st \<Longrightarrow> page_cuts c1 st \<Longrightarrow>
     page_cuts c1 (foldl (reflow_group_offsets separator) st gs)"
  by (induction gs arbitrary: st) (simp_all add: page_inv_step page_cuts_step)

lemma reflow_page_offsets_cuts:
  assumes "reflow_page_with_line_numbers_and_offsets page separator c1 = (t, info)"
  shows "\<forall>l \<in> set (page_info_lines info).
           cuts t c1 (line_info_offset l) (line_info_content l) \<and>
           (\<forall>w \<in> set (line_info_words l). cuts t c1 (word_offset w) (word_content w))"
proof (cases "extract_lines_from_page_offsets page = []")
  case True
  then show ?thesis
    using assms by (auto simp: reflow_page_with_line_numbers_and_offsets_def Let_def)
next
  case False
  define gs where "gs = group_lines_by_vertical_position_offsets
      (extract_lines_from_page_offsets page) default_y_tolerance"
  obtain ol li c where f: "foldl (reflow_group_offsets separator) ([], [], c1) gs = (ol, li, c)"
    by (cases "foldl (reflow_group_offsets separator) ([], [], c1) gs")
  have "page_inv c1 ([], [], c1)" and "page_cuts c1 ([], [], c1)"
    by (simp_all add: page_inv_def page_cuts_def)
  from page_inv_cuts_fold [OF this, of separator gs] have "page_cuts c1 (ol, li, c)"
    using f by simp
  moreover have "t = join newline ol" "page_info_lines info = li"
    using assms False f
    by (auto simp: reflow_page_with_line_numbers_and_offsets_def Let_def gs_def [symmetric])
  ultimately show ?thesis
    by (simp add: page_cuts_def)
qed

lemma round_trip_page:
  assumes "reflow_page_with_line_numbers_and_offsets page separator 0 = (T, info)"
  shows "(\<forall>l \<in> set (page_info_lines info).
            slice T (fst (line_info_offset l)) (snd (line_info_offset l)) = line_info_content l \<and>
            (\<forall>w \<in> set (line_info_words l).
               slice T (fst (word_offset w)) (snd (word_offset w)) = word_content w)) \<and>
         (T \<noteq> [] \<longrightarrow> slice T (fst (page_info_offset info)) (snd (page_info_offset info)) = T)"
proof -
  have "slice T (fst (page_info_offset info)) (snd (page_info_offset info)) = T" if "T \<noteq> []"
    using reflow_page_offsets_spans [OF assms that] by (simp add: slice_def)
  then show ?thesis
    using reflow_page_offsets_cuts [OF assms] by (simp add: cuts_slice)
qed

lemma step_skip:
  "declared_number page \<noteq> k \<Longrightarrow> reflow_document_offsets_step (Some k) separator st page = st"
  by (auto simp: reflow_document_offsets_step_def declared_number_def Let_def split: prod.splits)

lemma fold_matching_pages:
  "foldl (reflow_document_offsets_step (Some k) separator) st ps =
     foldl (reflow_document_offsets_step (Some k) separator) st
       (filter (\<lambda>p. declared_number p = k) ps)"
  by (induction ps arbitrary: st) (simp_all add: step_skip)

lemma round_trip_with_target_page:
  assumes "reflow_document_with_offsets json_data (Some k) separator = Inr (T, m)"
    and "distinct (map declared_number (pages (hd (contents json_data))))"
  shows "(\<forall>l \<in> set (line_infos m).
            slice T (fst (line_info_offset l)) (snd (line_info_offset l)) = line_info_content l) \<and>
         (\<forall>w \<in> set (word_infos m).
            slice T (fst (word_offset w)) (snd (word_offset w)) = word_content w) \<and>
         (\<forall>sp \<in> set (page_spans m). slice T (fst sp) (snd sp) = T)"
proof -
  define ps where "ps = pages (hd (contents json_data))"
  define matching where "matching = filter (\<lambda>p. declared_number p = k) ps"
  have short: "length matching \<le> 1"
    using distinct_filter_le_one [OF assms(2), of k] by (simp add: matching_def ps_def)
  obtain parts mapping c where f:
    "foldl (reflow_document_offsets_step (Some k) separator) ([], [], 0) matching = (parts, mapping, c)"
    by (cases "foldl (reflow_document_offsets_step (Some k) separator) ([], [], 0) matching")
  have f': "foldl (reflow_document_offsets_step (Some k) separator) ([], [], 0) ps =
      (parts, mapping, c)"
    using f fold_matching_pages [of k separator "([], [], 0)" ps] by (simp add: matching_def)
  have ne: "contents json_data \<noteq> []" "ps \<noteq> []"
    using assms(1) by (auto simp: reflow_document_with_offsets_def Let_def ps_def split: if_splits)
  have "reflow_document_with_offsets json_data (Some k) separator =
      Inr (if length parts > 1 then parts ! 1 else if parts \<noteq> [] then parts ! 0 else [],
           \<lparr>mapping_pages = mapping\<rparr>)"
    using ne f' by (simp add: reflow_document_with_offsets_def Let_def ps_def [symmetric])
  then have res: "m = \<lparr>mapping_pages = mapping\<rparr>"
    "T = (if length parts > 1 then parts ! 1 else if parts \<noteq> [] then parts ! 0 else [])"
    using assms(1) by simp_all
  show ?thesis
  proof (cases matching)
    case Nil
    then show ?thesis
      using f res by (simp add: line_infos_def word_infos_def page_spans_def)
  next
    case (Cons p rest)
    then have one: "matching = [p]"
      using short by simp
    have "p \<in> set matching"
      using one by simp
    then have k: "declared_number p = k"
      by (simp add: matching_def)
    obtain t info where page: "reflow_page_with_line_numbers_and_offsets p separator 0 = (t, info)"
      by (cases "reflow_page_with_line_numbers_and_offsets p separator 0")
    have step: "(parts, mapping, c) = (if t \<noteq> [] then ([t], [info], length t) else ([], [], 0))"
      using f one k page
      by (auto simp: reflow_document_offsets_step_def declared_number_def Let_def
          split: if_splits)
    show ?thesis
    proof (cases "t = []")
      case True
      then show ?thesis
        using step res by (simp add: line_infos_def word_infos_def page_spans_def)
    next
      case False
      then have "T = t" "mapping = [info]"
        using step res by simp_all
      then show ?thesis
        using round_trip_page [OF page] res(1) False
        by (auto simp: line_infos_def word_infos_def page_spans_def)
    qed
  qed
qed


end
